theory Spec2Isabelle
  imports Main "HOL-Library.Sublist"
begin

section \<open>Values of the host language\<close>

text \<open>
  The data table service and the component work on JavaScript values. A value is
  modelled as a tree: primitives, arrays, plain objects (their own properties, in the
  object's enumeration order) and \<open>Date\<close> instances (the instant in milliseconds).
  Numbers are restricted to integers, strings to code units below 256. Functions,
  symbols and inherited (prototype) properties are outside the model.
\<close>

datatype jsval =
    JUndefined
  | JNull
  | JBool bool
  | JNum int
  | JStr string
  | JArr "jsval list"
  | JObj "(string \<times> jsval) list"
  | JDate int

text \<open>A row of the table is a plain object; a dataset is an array of rows.\<close>

type_synonym row = "(string \<times> jsval) list"

datatype error = TypeError

text \<open>\<open>v == null\<close>: true of \<open>null\<close> and \<open>undefined\<close> only.\<close>

fun isNullish :: "jsval \<Rightarrow> bool" where
  "isNullish JUndefined = True"
| "isNullish JNull = True"
| "isNullish _ = False"

text \<open>Truthiness, as \<open>!v\<close>, \<open>v ? a : b\<close> and \<open>v && w\<close> test it.\<close>

fun truthy :: "jsval \<Rightarrow> bool" where
  "truthy JUndefined = False"
| "truthy JNull = False"
| "truthy (JBool b) = b"
| "truthy (JNum n) = (n \<noteq> 0)"
| "truthy (JStr s) = (s \<noteq> [])"
| "truthy (JArr xs) = True"
| "truthy (JObj kvs) = True"
| "truthy (JDate t) = True"

text \<open>\<open>record[field]\<close> on a row: the own property, \<open>undefined\<close> when it is absent.\<close>

definition getField :: "row \<Rightarrow> string \<Rightarrow> jsval" where
  "getField r f = (case map_of r f of Some v \<Rightarrow> v | None \<Rightarrow> JUndefined)"

section \<open>Strings\<close>

text \<open>\<open>String.prototype.toLowerCase\<close> on code units below 256.\<close>

definition lowerChar :: "char \<Rightarrow> char" where
  "lowerChar c =
     (let n = (of_char c :: nat)
      in if (65 \<le> n \<and> n \<le> 90) \<or> (192 \<le> n \<and> n \<le> 222 \<and> n \<noteq> 215)
         then char_of (n + 32) else c)"

definition toLowerCase :: "string \<Rightarrow> string" where
  "toLowerCase s = map lowerChar s"

text \<open>The class \<open>\s\<close> of the regular expressions, on code units below 256.\<close>

definition isSpace :: "char \<Rightarrow> bool" where
  "isSpace c = ((of_char c :: nat) \<in> {9, 10, 11, 12, 13, 32, 160})"

text \<open>\<open>s.includes(q)\<close>: \<open>q\<close> occurs in \<open>s\<close> as a contiguous run.\<close>

fun strIncludes :: "string \<Rightarrow> string \<Rightarrow> bool" where
  "strIncludes [] q = (q = [])"
| "strIncludes (c # cs) q = (prefix q (c # cs) \<or> strIncludes cs q)"

text \<open>\<open>s.split(sep)\<close> for a one-character separator; the result is never empty.\<close>

fun splitOn :: "char \<Rightarrow> string \<Rightarrow> string list" where
  "splitOn sep [] = [[]]"
| "splitOn sep (c # cs) =
     (if c = sep then [] # splitOn sep cs
      else (case splitOn sep cs of
              t # ts \<Rightarrow> (c # t) # ts
            | [] \<Rightarrow> [[c]]))"

section \<open>Search engine (dataTableService)\<close>

text \<open>
  \<open>formatSearchString\<close>: \<open>searchValue.replace(/\s*,\s*/g, ",")\<close>. Scanning from the
  left, a match starts at the current position exactly when the run of white space
  there is followed by a comma; it takes the comma and the white space after it.
  Otherwise the current character is copied and the scan moves on by one.
\<close>

function formatSearchString :: "string \<Rightarrow> string" where
  "formatSearchString [] = []"
| "formatSearchString (c # cs) =
     (case dropWhile isSpace (c # cs) of
        d # ds \<Rightarrow>
          if d = CHR '','' then CHR '','' # formatSearchString (dropWhile isSpace ds)
          else c # formatSearchString cs
      | [] \<Rightarrow> c # formatSearchString cs)"
  by pat_completeness auto
termination
proof (relation "measure length")
  show "wf (measure length)" by simp
next
  fix c :: char and cs d ds
  assume a: "dropWhile isSpace (c # cs) = d # ds"
  have "length (dropWhile isSpace ds) \<le> length ds"
    by (rule length_dropWhile_le)
  moreover have "length (d # ds) \<le> length (c # cs)"
    using a length_dropWhile_le [of isSpace "c # cs"] by simp
  ultimately show "(dropWhile isSpace ds, c # cs) \<in> measure length"
    by simp
qed simp_all

text \<open>
  First disjunct of the row test:
  \<open>searchableFields.some(field => record[field]?.toLowerCase().includes(searchValueLower))\<close>.
  An absent (\<open>undefined\<close> or \<open>null\<close>) field short-circuits the optional chain and counts
  as no match; a value that is neither absent nor a string has no \<open>toLowerCase\<close>, and
  calling it raises a TypeError.
\<close>

fun someIncludes :: "string \<Rightarrow> row \<Rightarrow> string list \<Rightarrow> error + bool" where
  "someIncludes searchValueLower record [] = Inr False"
| "someIncludes searchValueLower record (field # fields) =
     (case getField record field of
        JUndefined \<Rightarrow> someIncludes searchValueLower record fields
      | JNull \<Rightarrow> someIncludes searchValueLower record fields
      | JStr s \<Rightarrow>
          if strIncludes (toLowerCase s) searchValueLower then Inr True
          else someIncludes searchValueLower record fields
      | _ \<Rightarrow> Inl TypeError)"

text \<open>
  Second disjunct:
  \<open>searchableFields.some(field => record[field] && searchValueArray.includes(record[field]?.toLowerCase()))\<close>.
  A falsy field value (absent, or the empty string) is skipped by the guard.
\<close>

fun someEquals :: "string list \<Rightarrow> row \<Rightarrow> string list \<Rightarrow> error + bool" where
  "someEquals searchValueArray record [] = Inr False"
| "someEquals searchValueArray record (field # fields) =
     (let v = getField record field
      in if \<not> truthy v then someEquals searchValueArray record fields
         else (case v of
                 JStr s \<Rightarrow>
                   if toLowerCase s \<in> set searchValueArray then Inr True
                   else someEquals searchValueArray record fields
               | _ \<Rightarrow> Inl TypeError))"

text \<open>The condition of the \<open>if\<close> in the loop body; \<open>||\<close> evaluates its right side only
  when the left side is false.\<close>

definition recordMatches :: "string \<Rightarrow> string list \<Rightarrow> string list \<Rightarrow> row \<Rightarrow> error + bool" where
  "recordMatches searchValueLower searchValueArray searchableFields record =
     (case someIncludes searchValueLower record searchableFields of
        Inl e \<Rightarrow> Inl e
      | Inr True \<Rightarrow> Inr True
      | Inr False \<Rightarrow> someEquals searchValueArray record searchableFields)"

text \<open>The \<open>for\<close> loop over \<open>data\<close>, pushing each matching record onto \<open>tempDisplayData\<close>.\<close>

fun searchLoop ::
  "string \<Rightarrow> string list \<Rightarrow> string list \<Rightarrow> row list \<Rightarrow> row list \<Rightarrow> error + row list" where
  "searchLoop lw arr fields tempDisplayData [] = Inr tempDisplayData"
| "searchLoop lw arr fields tempDisplayData (record # rest) =
     (case recordMatches lw arr fields record of
        Inl e \<Rightarrow> Inl e
      | Inr True \<Rightarrow> searchLoop lw arr fields (tempDisplayData @ [record]) rest
      | Inr False \<Rightarrow> searchLoop lw arr fields tempDisplayData rest)"

definition dataTableSearchResult :: "string \<Rightarrow> string list \<Rightarrow> row list \<Rightarrow> error + row list" where
  "dataTableSearchResult searchValue searchableFields data =
     (let searchValue' = formatSearchString searchValue;
          searchValueLower = toLowerCase searchValue';
          searchValueArray = splitOn (CHR '','') (toLowerCase searchValue')
      in searchLoop searchValueLower searchValueArray searchableFields [] data)"

section \<open>Selection tracker (dataTableService)\<close>

text \<open>
  A \<open>Set\<close> of identifiers is a list without repetition, in insertion order (the order
  in which the host iterates it). Identifiers are primitive values, on which \<open>===\<close> and
  the set's own membership test agree with equality.
\<close>

definition setAdd :: "jsval \<Rightarrow> jsval list \<Rightarrow> jsval list" where
  "setAdd x s = (if x \<in> set s then s else s @ [x])"

definition setDelete :: "jsval \<Rightarrow> jsval list \<Rightarrow> jsval list" where
  "setDelete x s = filter (\<lambda>y. y \<noteq> x) s"

definition setHas :: "jsval list \<Rightarrow> jsval \<Rightarrow> bool" where
  "setHas s x = (x \<in> set s)"

definition newSet :: "jsval list \<Rightarrow> jsval list" where
  "newSet xs = foldl (\<lambda>s x. setAdd x s) [] xs"

text \<open>\<open>row.Id\<close>.\<close>

definition rowId :: "row \<Rightarrow> jsval" where
  "rowId r = getField r ''Id''"

text \<open>\<open>data.find(row => row.Id === id)\<close>; \<open>None\<close> stands for \<open>undefined\<close>.\<close>

definition findById :: "row list \<Rightarrow> jsval \<Rightarrow> row option" where
  "findById data i = find (\<lambda>row. rowId row = i) data"

section \<open>The component's state\<close>

text \<open>
  The fields of \<open>AdvancedDataTable\<close> that its handlers and the service read or write.
  \<open>tableData'\<close> is the backing field \<open>_tableData\<close>; \<open>selectedRows\<close> is the \<open>Set\<close> of
  selected identifiers.
\<close>

record component =
  isLazyLoading :: bool
  dataTableValue :: "row list"
  dataToShow :: "row list"
  selectedRowsArray :: "jsval list"
  selectedIds :: "jsval list"
  selectedRows :: "jsval list"
  tableData' :: "row list"
  sortedBy :: jsval
  sortedDirection :: jsval
  searchValue :: string
  searchableFields :: "string list"
  selectedData :: "row list"
  selectedDataToShow :: "row list"
  selectedDataToShowBackup :: "row list"
  isReadonlyLoading :: bool

definition PAGE_SIZE :: nat where
  "PAGE_SIZE = 15"

text \<open>The field initialisers of the class.\<close>

definition initialComponent :: "string list \<Rightarrow> component" where
  "initialComponent searchable =
     \<lparr> isLazyLoading = True, dataTableValue = [], dataToShow = [],
       selectedRowsArray = [], selectedIds = [], selectedRows = [],
       tableData' = [], sortedBy = JUndefined, sortedDirection = JUndefined,
       searchValue = [], searchableFields = searchable,
       selectedData = [], selectedDataToShow = [], selectedDataToShowBackup = [],
       isReadonlyLoading = False \<rparr>"

text \<open>
  The selection event of the host's table: \<open>event.detail.config\<close> (an object that
  carries \<open>action\<close> and \<open>value\<close>) and \<open>event.detail.selectedRows\<close> (the rows the host
  reports as selected).
\<close>

record rowselection_event =
  detail_config :: row
  detail_selectedRows :: "row list"

record selection_result =
  deselectedRecords :: "row option list"
  resultSelectedRows :: "jsval list"
  selectedRecords :: "row list"

text \<open>
  \<open>handleRowSelection(event, tableComponent, data)\<close>. The service updates
  \<open>tableComponent.selectedRows\<close> and returns that same set in its result.
\<close>

definition handleRowSelection ::
  "rowselection_event \<Rightarrow> component \<Rightarrow> row list \<Rightarrow> component \<times> selection_result" where
  "handleRowSelection event tableComponent data =
     (let action = getField (detail_config event) ''action'';
          val = getField (detail_config event) ''value'';
          evRows = detail_selectedRows event;
          previous = selectedRows tableComponent
      in if action = JStr ''selectAllRows'' then
           (let sel = newSet (map rowId data)
            in (tableComponent\<lparr>selectedRows := sel\<rparr>,
                \<lparr>deselectedRecords = [], resultSelectedRows = sel, selectedRecords = data\<rparr>))
         else if action = JStr ''deselectAllRows'' then
           (tableComponent\<lparr>selectedRows := []\<rparr>,
            \<lparr>deselectedRecords = map (findById data) previous,
             resultSelectedRows = [], selectedRecords = []\<rparr>)
         else if action = JStr ''rowSelect'' then
           (let sel = foldl (\<lambda>s row. setAdd (rowId row) s) previous evRows
            in (tableComponent\<lparr>selectedRows := sel\<rparr>,
                \<lparr>deselectedRecords = [], resultSelectedRows = sel,
                 selectedRecords =
                   filter (\<lambda>row. list_ex (\<lambda>sel. rowId sel = rowId row) evRows) data\<rparr>))
         else if action = JStr ''rowDeselect'' then
           (if length evRows = 0 then
              (tableComponent\<lparr>selectedRows := []\<rparr>,
               \<lparr>deselectedRecords = map (findById data) previous,
                resultSelectedRows = [], selectedRecords = []\<rparr>)
            else
              (let sel = setDelete val previous
               in (tableComponent\<lparr>selectedRows := sel\<rparr>,
                   \<lparr>deselectedRecords =
                      map Some (filter (\<lambda>row. setHas sel (rowId row) = False) data),
                    resultSelectedRows = sel,
                    selectedRecords = filter (\<lambda>row. setHas sel (rowId row)) data\<rparr>)))
         else
           (tableComponent\<lparr>selectedRows := []\<rparr>,
            \<lparr>deselectedRecords = [], resultSelectedRows = [], selectedRecords = []\<rparr>))"

section \<open>Sort engine (dataTableService)\<close>

text \<open>
  Built-ins of the host whose results depend on its locale and time zone:
  \<open>String.prototype.localeCompare\<close>, \<open>Date.prototype.toISOString\<close> and the text
  \<open>String(date)\<close> of a date.
\<close>

record host =
  localeCompare :: "string \<Rightarrow> string \<Rightarrow> int"
  dateToISOString :: "int \<Rightarrow> string"
  dateToString :: "int \<Rightarrow> string"

text \<open>Decimal text of a number (an integer, printed without an exponent).\<close>

definition digitChar :: "nat \<Rightarrow> char" where
  "digitChar d = char_of (48 + d)"

fun showNat :: "nat \<Rightarrow> string" where
  "showNat n = (if n < 10 then [digitChar n] else showNat (n div 10) @ [digitChar (n mod 10)])"

definition showInt :: "int \<Rightarrow> string" where
  "showInt n = (if n < 0 then CHR ''-'' # showNat (nat (- n)) else showNat (nat n))"

fun joinWith :: "string \<Rightarrow> string list \<Rightarrow> string" where
  "joinWith sep [] = []"
| "joinWith sep [x] = x"
| "joinWith sep (x # y # ys) = x @ sep @ joinWith sep (y # ys)"

text \<open>\<open>typeof v\<close>.\<close>

fun typeOf :: "jsval \<Rightarrow> string" where
  "typeOf JUndefined = ''undefined''"
| "typeOf JNull = ''object''"
| "typeOf (JBool b) = ''boolean''"
| "typeOf (JNum n) = ''number''"
| "typeOf (JStr s) = ''string''"
| "typeOf (JArr xs) = ''object''"
| "typeOf (JObj kvs) = ''object''"
| "typeOf (JDate t) = ''object''"

text \<open>\<open>String(v)\<close>; an array joins the texts of its elements with commas, an absent
  element giving the empty text.\<close>

fun jsString :: "host \<Rightarrow> jsval \<Rightarrow> string" where
  "jsString h JUndefined = ''undefined''"
| "jsString h JNull = ''null''"
| "jsString h (JBool b) = (if b then ''true'' else ''false'')"
| "jsString h (JNum n) = showInt n"
| "jsString h (JStr s) = s"
| "jsString h (JArr xs) =
     joinWith '','' (map (\<lambda>x. if isNullish x then [] else jsString h x) xs)"
| "jsString h (JObj kvs) = ''[object Object]''"
| "jsString h (JDate t) = dateToString h t"

text \<open>The quoted form of a string in JSON text.\<close>

definition hexDigit :: "nat \<Rightarrow> char" where
  "hexDigit d = (if d < 10 then char_of (48 + d) else char_of (87 + d))"

definition escapeChar :: "char \<Rightarrow> string" where
  "escapeChar c =
     (let n = (of_char c :: nat)
      in if c = CHR 0x22 then [CHR 0x5C, CHR 0x22]
         else if c = CHR 0x5C then [CHR 0x5C, CHR 0x5C]
         else if n = 8 then [CHR 0x5C, CHR ''b'']
         else if n = 12 then [CHR 0x5C, CHR ''f'']
         else if n = 10 then [CHR 0x5C, CHR ''n'']
         else if n = 13 then [CHR 0x5C, CHR ''r'']
         else if n = 9 then [CHR 0x5C, CHR ''t'']
         else if n < 32 then
           [CHR 0x5C, CHR ''u'', CHR ''0'', CHR ''0'', hexDigit (n div 16), hexDigit (n mod 16)]
         else [c])"

definition jsonQuote :: "string \<Rightarrow> string" where
  "jsonQuote s = CHR 0x22 # concat (map escapeChar s) @ [CHR 0x22]"

text \<open>
  \<open>JSON.stringify(v)\<close> for a value that is not \<open>undefined\<close>: inside an array an
  \<open>undefined\<close> element is written \<open>null\<close>, inside an object a property whose value is
  \<open>undefined\<close> is left out, a date is written as its quoted ISO text.
\<close>

fun jsonText :: "host \<Rightarrow> jsval \<Rightarrow> string" where
  "jsonText h JUndefined = ''null''"
| "jsonText h JNull = ''null''"
| "jsonText h (JBool b) = (if b then ''true'' else ''false'')"
| "jsonText h (JNum n) = showInt n"
| "jsonText h (JStr s) = jsonQuote s"
| "jsonText h (JArr xs) = ''['' @ joinWith '','' (map (jsonText h) xs) @ '']''"
| "jsonText h (JObj kvs) =
     ''{'' @ joinWith '',''
              (map (\<lambda>kv. jsonQuote (fst kv) @ '':'' @ jsonText h (snd kv))
                   (filter (\<lambda>kv. snd kv \<noteq> JUndefined) kvs)) @ ''}''"
| "jsonText h (JDate t) = jsonQuote (dateToISOString h t)"

text \<open>
  \<open>JSON.parse(JSON.stringify(v))\<close>, value by value: the copy of a date is its ISO
  text, \<open>undefined\<close> becomes \<open>null\<close> in an array and disappears from an object.
\<close>

fun cloneValue :: "host \<Rightarrow> jsval \<Rightarrow> jsval" where
  "cloneValue h JUndefined = JNull"
| "cloneValue h JNull = JNull"
| "cloneValue h (JBool b) = JBool b"
| "cloneValue h (JNum n) = JNum n"
| "cloneValue h (JStr s) = JStr s"
| "cloneValue h (JArr xs) = JArr (map (cloneValue h) xs)"
| "cloneValue h (JObj kvs) =
     JObj (map (\<lambda>kv. (fst kv, cloneValue h (snd kv)))
               (filter (\<lambda>kv. snd kv \<noteq> JUndefined) kvs))"
| "cloneValue h (JDate t) = JStr (dateToISOString h t)"

definition cloneRow :: "host \<Rightarrow> row \<Rightarrow> row" where
  "cloneRow h r =
     map (\<lambda>kv. (fst kv, cloneValue h (snd kv))) (filter (\<lambda>kv. snd kv \<noteq> JUndefined) r)"

definition jsonClone :: "host \<Rightarrow> row list \<Rightarrow> row list" where
  "jsonClone h data = map (cloneRow h) data"

text \<open>
  \<open>obj[key]\<close> on a truthy value: an own property of an object; the length or an
  element of an array or of a string; \<open>undefined\<close> otherwise.
\<close>

fun getProp :: "jsval \<Rightarrow> string \<Rightarrow> jsval" where
  "getProp (JObj kvs) key = getField kvs key"
| "getProp (JArr xs) key =
     (if key = ''length'' then JNum (int (length xs))
      else (case find (\<lambda>i. showNat i = key) [0 ..< length xs] of
              Some i \<Rightarrow> xs ! i
            | None \<Rightarrow> JUndefined))"
| "getProp (JStr s) key =
     (if key = ''length'' then JNum (int (length s))
      else (case find (\<lambda>i. showNat i = key) [0 ..< length s] of
              Some i \<Rightarrow> JStr [s ! i]
            | None \<Rightarrow> JUndefined))"
| "getProp _ key = JUndefined"

text \<open>
  \<open>resolveFieldValue(record, fieldPath)\<close>. A falsy record or path gives \<open>null\<close>; a
  truthy path that is not a string has no \<open>split\<close>, and calling it raises a TypeError.
  \<open>resolveStep\<close> is the callback \<open>(obj, key) => obj ? obj[key] : null\<close> of its \<open>reduce\<close>.
\<close>

definition resolveStep :: "jsval \<Rightarrow> string \<Rightarrow> jsval" where
  "resolveStep obj key = (if truthy obj then getProp obj key else JNull)"

definition resolveFieldValue :: "jsval \<Rightarrow> jsval \<Rightarrow> error + jsval" where
  "resolveFieldValue record fieldPath =
     (if \<not> truthy record \<or> \<not> truthy fieldPath then Inr JNull
      else (case fieldPath of
              JStr p \<Rightarrow> Inr (foldl resolveStep record (splitOn (CHR ''.'') p))
            | _ \<Rightarrow> Inl TypeError))"

text \<open>
  The \<open>switch (typeof valueA)\<close> of the comparator, entered with two values of the
  same type, neither of them \<open>null\<close> or \<open>undefined\<close>. The last equation is the case
  \<open>'object'\<close> for values that are not both dates. The \<open>default\<close> case of the switch
  is for functions, symbols and bigints, which are no values of the model.
\<close>

fun compareTyped :: "host \<Rightarrow> bool \<Rightarrow> jsval \<Rightarrow> jsval \<Rightarrow> int" where
  "compareTyped h asc (JNum a) (JNum b) = (if asc then a - b else b - a)"
| "compareTyped h asc (JBool a) (JBool b) =
     (if asc then (if a = b then 0 else if a then - 1 else 1)
      else (if a = b then 0 else if a then 1 else - 1))"
| "compareTyped h asc (JStr a) (JStr b) =
     (let a' = toLowerCase a; b' = toLowerCase b
      in if asc then localeCompare h a' b' else localeCompare h b' a')"
| "compareTyped h asc (JDate a) (JDate b) = (if asc then a - b else b - a)"
| "compareTyped h asc a b =
     (let a' = toLowerCase (jsonText h a); b' = toLowerCase (jsonText h b)
      in if asc then localeCompare h a' b' else localeCompare h b' a')"

text \<open>The comparator on two resolved values.\<close>

definition compareValues :: "host \<Rightarrow> jsval \<Rightarrow> jsval \<Rightarrow> jsval \<Rightarrow> int" where
  "compareValues h sortDirection valueA valueB =
     (if isNullish valueA \<and> isNullish valueB then 0
      else if isNullish valueA then 1
      else if isNullish valueB then - 1
      else if typeOf valueA \<noteq> typeOf valueB
        then compareTyped h (sortDirection = JStr ''asc'')
               (JStr (jsString h valueA)) (JStr (jsString h valueB))
        else compareTyped h (sortDirection = JStr ''asc'') valueA valueB)"

text \<open>The comparator \<open>(a, b) => ...\<close> passed to \<open>sort\<close>.\<close>

definition compareRows :: "host \<Rightarrow> jsval \<Rightarrow> jsval \<Rightarrow> row \<Rightarrow> row \<Rightarrow> error + int" where
  "compareRows h fieldName sortDirection a b =
     (case resolveFieldValue (JObj a) fieldName of
        Inl e \<Rightarrow> Inl e
      | Inr valueA \<Rightarrow>
          (case resolveFieldValue (JObj b) fieldName of
             Inl e \<Rightarrow> Inl e
           | Inr valueB \<Rightarrow> Inr (compareValues h sortDirection valueA valueB)))"

text \<open>
  \<open>Array.prototype.sort(comparefn)\<close>: the host's sort is stable, and it stops as soon
  as the comparator raises. It is modelled as a stable insertion sort: each element,
  taken from left to right, goes before the first element of the sorted part that the
  comparator puts after it.
\<close>

fun insertSorted :: "('a \<Rightarrow> 'a \<Rightarrow> error + int) \<Rightarrow> 'a \<Rightarrow> 'a list \<Rightarrow> error + 'a list" where
  "insertSorted cmp x [] = Inr [x]"
| "insertSorted cmp x (y # ys) =
     (case cmp x y of
        Inl e \<Rightarrow> Inl e
      | Inr n \<Rightarrow>
          if n < 0 then Inr (x # y # ys)
          else (case insertSorted cmp x ys of
                  Inl e \<Rightarrow> Inl e
                | Inr zs \<Rightarrow> Inr (y # zs)))"

fun sortLoop :: "('a \<Rightarrow> 'a \<Rightarrow> error + int) \<Rightarrow> 'a list \<Rightarrow> 'a list \<Rightarrow> error + 'a list" where
  "sortLoop cmp done [] = Inr done"
| "sortLoop cmp done (x # xs) =
     (case insertSorted cmp x done of
        Inl e \<Rightarrow> Inl e
      | Inr done' \<Rightarrow> sortLoop cmp done' xs)"

definition arraySort :: "('a \<Rightarrow> 'a \<Rightarrow> error + int) \<Rightarrow> 'a list \<Rightarrow> error + 'a list" where
  "arraySort cmp xs = sortLoop cmp [] xs"

text \<open>
  Arrays of rows live in a store, so that the array \<open>sort\<close> reorders in place is
  told apart from the array the caller passed: an address is an index of the store,
  and allocation appends a cell.
\<close>

type_synonym addr = nat

type_synonym store = "row list list"

record sort_detail =
  fieldName :: jsval
  sortDirection :: jsval

text \<open>The sort event; \<open>detail = None\<close> is an event without \<open>detail\<close>, on which
  \<open>event.detail.fieldName\<close> raises a TypeError.\<close>

record sort_event =
  detail :: "sort_detail option"

text \<open>
  The body of the \<open>try\<close> block of \<open>handleSort(event, tableComponent, tableData)\<close>: the
  component and the store as the block leaves them, and either the error it raised or
  the address of \<open>clonedData\<close>.
\<close>

definition handleSort_try ::
  "host \<Rightarrow> sort_event \<Rightarrow> component \<Rightarrow> store \<Rightarrow> addr \<Rightarrow> component \<times> store \<times> (error + addr)" where
  "handleSort_try h event tableComponent s tableData =
     (case detail event of
        None \<Rightarrow> (tableComponent, s, Inl TypeError)
      | Some d \<Rightarrow>
          (let c1 = tableComponent\<lparr>sortedBy := fieldName d, sortedDirection := sortDirection d\<rparr>;
               clonedData = length s;
               s1 = s @ [jsonClone h (s ! tableData)]
           in case arraySort (compareRows h (fieldName d) (sortDirection d)) (s1 ! clonedData) of
                Inl e \<Rightarrow> (c1, s1, Inl e)
              | Inr sortedRows \<Rightarrow> (c1, s1[clonedData := sortedRows], Inr clonedData)))"

text \<open>\<open>handleSort\<close>: the \<open>catch\<close> clause returns \<open>tableData\<close>, the reference it was given.\<close>

definition handleSort ::
  "host \<Rightarrow> sort_event \<Rightarrow> component \<Rightarrow> store \<Rightarrow> addr \<Rightarrow> component \<times> store \<times> addr" where
  "handleSort h event tableComponent s tableData =
     (case handleSort_try h event tableComponent s tableData of
        (c', s', Inl e) \<Rightarrow> (c', s', tableData)
      | (c', s', Inr clonedData) \<Rightarrow> (c', s', clonedData))"

section \<open>The component's handlers (AdvancedDataTable)\<close>

text \<open>\<open>xs.slice(b, e)\<close> for \<open>b \<le> e\<close>.\<close>

definition slice :: "nat \<Rightarrow> nat \<Rightarrow> 'a list \<Rightarrow> 'a list" where
  "slice b e xs = take (e - b) (drop b xs)"

text \<open>
  \<open>maintainSelectionState\<close>: keeps the identifiers that some row of \<open>_tableData\<close>
  carries. Its second statement hands the array to the host's table element and
  changes no field of the component.
\<close>

definition maintainSelectionState :: "component \<Rightarrow> component" where
  "maintainSelectionState c =
     c\<lparr>selectedRowsArray :=
         filter (\<lambda>i. list_ex (\<lambda>row. rowId row = i) (tableData' c)) (selectedRowsArray c)\<rparr>"

text \<open>
  The filter of \<open>setDataToReadOnlyTable\<close>: drops \<open>undefined\<close> and every row whose
  identifier \<open>uniqueIds\<close> already holds, recording the identifier of each row it keeps.
\<close>

fun uniqueRows :: "jsval list \<Rightarrow> row option list \<Rightarrow> row list" where
  "uniqueRows uniqueIds [] = []"
| "uniqueRows uniqueIds (None # rest) = uniqueRows uniqueIds rest"
| "uniqueRows uniqueIds (Some row # rest) =
     (if setHas uniqueIds (rowId row) then uniqueRows uniqueIds rest
      else row # uniqueRows (setAdd (rowId row) uniqueIds) rest)"

definition setDataToReadOnlyTable :: "component \<Rightarrow> component" where
  "setDataToReadOnlyTable c =
     (let sel = uniqueRows [] (map (findById (tableData' c)) (selectedRowsArray c))
      in c\<lparr>selectedData := sel, selectedDataToShowBackup := sel,
           selectedDataToShow := slice 0 PAGE_SIZE sel\<rparr>)"

text \<open>\<open>preSelection(value)\<close>; \<open>None\<close> is a falsy argument. The whole array is pushed
  onto \<open>selectedIds\<close> as one element.\<close>

definition preSelection :: "jsval list option \<Rightarrow> component \<Rightarrow> component" where
  "preSelection v c =
     (case v of
        None \<Rightarrow> c
      | Some ids \<Rightarrow> c\<lparr>selectedRowsArray := ids, selectedIds := selectedIds c @ [JArr ids]\<rparr>)"

text \<open>
  The setter of \<open>tableData\<close>. \<open>None\<close> is \<open>undefined\<close> or \<open>null\<close>; \<open>sameArray\<close> tells
  whether the array assigned is the very array \<open>_tableData\<close> already refers to
  (\<open>value !== this._tableData\<close> compares references).
\<close>

definition setTableData :: "bool \<Rightarrow> row list option \<Rightarrow> component \<Rightarrow> component" where
  "setTableData sameArray v c =
     (case v of
        None \<Rightarrow> c\<lparr>tableData' := []\<rparr>
      | Some rows \<Rightarrow>
          if \<not> sameArray then
            setDataToReadOnlyTable
              (c\<lparr>tableData' := rows, dataTableValue := rows,
                 dataToShow := slice 0 PAGE_SIZE rows\<rparr>)
          else if length rows = 0 then c\<lparr>tableData' := []\<rparr>
          else c)"

text \<open>The component's \<open>handleRowSelection(event)\<close>; the notification it dispatches
  to its parent changes no field.\<close>

definition component_handleRowSelection :: "rowselection_event \<Rightarrow> component \<Rightarrow> component" where
  "component_handleRowSelection event c =
     (if length (detail_config event) \<noteq> 0 then
        (case handleRowSelection event c (tableData' c) of
           (c1, result) \<Rightarrow>
             (let c2 = c1\<lparr>selectedRows := resultSelectedRows result\<rparr>;
                  c3 = c2\<lparr>selectedRowsArray := newSet (selectedRows c2 @ selectedIds c2)\<rparr>
              in setDataToReadOnlyTable (maintainSelectionState c3)))
      else c)"

text \<open>\<open>handleLoadMore\<close>: no statement of its \<open>try\<close> block raises on arrays, so
  the \<open>catch\<close> clause is never entered.\<close>

definition handleLoadMore :: "component \<Rightarrow> component" where
  "handleLoadMore c =
     maintainSelectionState
       (c\<lparr>dataToShow :=
            dataToShow c @
            slice (length (dataToShow c)) (length (dataToShow c) + PAGE_SIZE) (dataTableValue c),
          isLazyLoading := False\<rparr>)"

text \<open>
  The component's \<open>handleSort(event)\<close>. The component's arrays are held by value; for
  the call of the service \<open>_tableData\<close> is put in a store of one cell.
\<close>

definition component_handleSort :: "host \<Rightarrow> sort_event \<Rightarrow> component \<Rightarrow> component" where
  "component_handleSort h event c =
     (case handleSort h event c [tableData' c] 0 of
        (c1, s', a) \<Rightarrow>
          (let sordtedData = s' ! a
           in maintainSelectionState
                (c1\<lparr>dataTableValue := sordtedData,
                    dataToShow := slice 0 PAGE_SIZE sordtedData\<rparr>)))"

definition handleSearchKeyChange :: "string \<Rightarrow> component \<Rightarrow> component" where
  "handleSearchKeyChange v c =
     (if \<not> list_all isSpace v then c\<lparr>searchValue := v\<rparr> else c\<lparr>searchValue := []\<rparr>)"

text \<open>\<open>handleSearch\<close>: an error of the search engine leaves the handler before any
  field is assigned.\<close>

definition handleSearch :: "component \<Rightarrow> error + component" where
  "handleSearch c =
     (if searchValue c \<noteq> [] then
        (case dataTableSearchResult (formatSearchString (searchValue c))
                (searchableFields c) (tableData' c) of
           Inl e \<Rightarrow> Inl e
         | Inr tempDisplayData \<Rightarrow>
             Inr (maintainSelectionState
                    (c\<lparr>dataTableValue := tempDisplayData,
                       dataToShow := slice 0 PAGE_SIZE tempDisplayData\<rparr>)))
      else
        Inr (maintainSelectionState
               (c\<lparr>dataTableValue := tableData' c,
                  dataToShow := slice 0 PAGE_SIZE (tableData' c)\<rparr>)))"

text \<open>\<open>handelSearchKey\<close> and \<open>handleSearchTextPaste\<close> set \<open>searchValue\<close> and search
  inside a \<open>try\<close>; the pasted text as the input element holds it is an argument.\<close>

definition handelSearchKey :: "int \<Rightarrow> string \<Rightarrow> component \<Rightarrow> component" where
  "handelSearchKey keyCode v c =
     (if keyCode = 13 then
        (case handleSearch (c\<lparr>searchValue := v\<rparr>) of
           Inl e \<Rightarrow> c\<lparr>searchValue := v\<rparr>
         | Inr c' \<Rightarrow> c')
      else c)"

definition handleSearchTextPaste :: "string \<Rightarrow> component \<Rightarrow> component" where
  "handleSearchTextPaste v c =
     (case handleSearch (c\<lparr>searchValue := v\<rparr>) of
        Inl e \<Rightarrow> c\<lparr>searchValue := v\<rparr>
      | Inr c' \<Rightarrow> c')"

definition handleReadonlyLoadMore :: "component \<Rightarrow> component" where
  "handleReadonlyLoadMore c =
     c\<lparr>selectedDataToShow :=
         selectedDataToShow c @
         slice (length (selectedDataToShow c)) (length (selectedDataToShow c) + PAGE_SIZE)
           (selectedDataToShowBackup c),
       isReadonlyLoading := False\<rparr>"

definition handleShowSelectedTableSort :: "host \<Rightarrow> sort_event \<Rightarrow> component \<Rightarrow> component" where
  "handleShowSelectedTableSort h event c =
     (case handleSort h event c [selectedData c] 0 of
        (c1, s', a) \<Rightarrow>
          c1\<lparr>selectedDataToShowBackup := s' ! a,
             selectedDataToShow := slice 0 PAGE_SIZE (s' ! a)\<rparr>)"

text \<open>
  The operations the host can trigger on the component: its public members and the
  handlers its template binds. A search started by the button lets the error of the
  engine escape to the host, with the component as it was.
\<close>

datatype operation =
    SetTableData bool "row list option"
  | PreSelection "jsval list option"
  | RowSelection rowselection_event
  | LoadMore
  | Sort sort_event
  | SearchKeyChange string
  | SearchKey int string
  | SearchTextPaste string
  | SearchClick
  | ReadonlyLoadMore
  | ShowSelectedTableSort sort_event

fun step :: "host \<Rightarrow> component \<Rightarrow> operation \<Rightarrow> component" where
  "step h c (SetTableData sameArray v) = setTableData sameArray v c"
| "step h c (PreSelection v) = preSelection v c"
| "step h c (RowSelection event) = component_handleRowSelection event c"
| "step h c LoadMore = handleLoadMore c"
| "step h c (Sort event) = component_handleSort h event c"
| "step h c (SearchKeyChange v) = handleSearchKeyChange v c"
| "step h c (SearchKey keyCode v) = handelSearchKey keyCode v c"
| "step h c (SearchTextPaste v) = handleSearchTextPaste v c"
| "step h c SearchClick = (case handleSearch c of Inl e \<Rightarrow> c | Inr c' \<Rightarrow> c')"
| "step h c ReadonlyLoadMore = handleReadonlyLoadMore c"
| "step h c (ShowSelectedTableSort event) = handleShowSelectedTableSort h event c"

definition run :: "host \<Rightarrow> component \<Rightarrow> operation list \<Rightarrow> component" where
  "run h c ops = foldl (step h) c ops"

text \<open>The visible window is a prefix of the working dataset.\<close>

definition windowInv :: "component \<Rightarrow> bool" where
  "windowInv c = prefix (dataToShow c) (dataTableValue c)"


section \<open>Predicates and example data used in the statements\<close>

text \<open>A searchable field of a row is textual when it is absent or holds a string:
  the values on which the row test of the search engine raises no error.\<close>

definition textual :: "row \<Rightarrow> string \<Rightarrow> bool" where
  "textual r f =
     (case getField r f of
        JUndefined \<Rightarrow> True
      | JNull \<Rightarrow> True
      | JStr s \<Rightarrow> True
      | _ \<Rightarrow> False)"

text \<open>Two accounts; the second has no \<open>Phone\<close>.\<close>

definition exampleAccounts :: "row list" where
  "exampleAccounts =
     [[(''Id'', JStr ''001''), (''Name'', JStr ''Globex''), (''Phone'', JStr ''555-1234'')],
      [(''Id'', JStr ''002''), (''Name'', JStr ''Initech'')]]"


text \<open>
  A host for the examples: it compares strings by their code units and prints an
  instant as its number of milliseconds.
\<close>

fun compareCodeUnits :: "string \<Rightarrow> string \<Rightarrow> int" where
  "compareCodeUnits [] [] = 0"
| "compareCodeUnits [] (y # ys) = - 1"
| "compareCodeUnits (x # xs) [] = 1"
| "compareCodeUnits (x # xs) (y # ys) =
     (if (of_char x :: nat) < of_char y then - 1
      else if (of_char y :: nat) < of_char x then 1
      else compareCodeUnits xs ys)"

definition exampleHost :: host where
  "exampleHost =
     \<lparr> localeCompare = compareCodeUnits, dateToISOString = showInt, dateToString = showInt \<rparr>"

text \<open>Two rows with a boolean column, and two rows of which the first has no
  \<open>Owner\<close>.\<close>

definition exampleFlags :: "row list" where
  "exampleFlags =
     [[(''Id'', JStr ''001''), (''Active'', JBool False)],
      [(''Id'', JStr ''002''), (''Active'', JBool True)]]"

definition exampleOwners :: "row list" where
  "exampleOwners =
     [[(''Id'', JStr ''001''), (''Name'', JStr ''Globex'')],
      [(''Id'', JStr ''002''), (''Name'', JStr ''Initech''),
       (''Owner'', JObj [(''Name'', JStr ''Ada'')])]]"

definition sortEvent :: "jsval \<Rightarrow> jsval \<Rightarrow> sort_event" where
  "sortEvent f d = \<lparr> detail = Some \<lparr> fieldName = f, sortDirection = d \<rparr> \<rparr>"

text \<open>The sort key of a row is null when the field path resolves, on that row, to
  \<open>null\<close> or \<open>undefined\<close>.\<close>

definition nullKey :: "jsval \<Rightarrow> row \<Rightarrow> bool" where
  "nullKey f r = (case resolveFieldValue (JObj r) f of Inl e \<Rightarrow> False | Inr v \<Rightarrow> isNullish v)"



text \<open>The component with the example accounts loaded, the second account
  pre-selected and \<open>globex\<close> typed into the search box.\<close>

definition exampleComponent :: component where
  "exampleComponent =
     (preSelection (Some [JStr ''002''])
        (setTableData False (Some exampleAccounts) (initialComponent [''Name'', ''Phone''])))
     \<lparr>searchValue := ''globex''\<rparr>"

text \<open>Twenty rows with the identifiers \<open>R1\<close> to \<open>R20\<close>.\<close>

definition exampleRows20 :: "row list" where
  "exampleRows20 = map (\<lambda>n. [(''Id'', JStr (''R'' @ showNat n))]) [1 ..< 21]"


section \<open>Properties of the search engine\<close>

lemma strIncludes_sublist: "strIncludes s q = sublist q s"
  by (induction s) (auto simp: sublist_Cons_right)

subsection \<open>The normaliser\<close>

lemma format_Cons_comma:
  "dropWhile isSpace (c # cs) = CHR '','' # ds \<Longrightarrow>
   formatSearchString (c # cs) = CHR '','' # formatSearchString (dropWhile isSpace ds)"
  by (simp del: dropWhile.simps)

lemma format_Cons_other:
  assumes "\<not> (\<exists>ds. dropWhile isSpace (c # cs) = CHR '','' # ds)"
  shows "formatSearchString (c # cs) = c # formatSearchString cs"
proof (cases "dropWhile isSpace (c # cs)")
  case Nil
  show ?thesis
    by (subst formatSearchString.simps) (simp only: Nil list.case)
next
  case (Cons d ds)
  with assms have "d \<noteq> CHR '',''" by blast
  then show ?thesis
    by (subst formatSearchString.simps) (simp only: Cons list.case if_False)
qed

lemma dropWhile_shorter:
  "dropWhile isSpace (c # cs) = d # ds \<Longrightarrow> length (dropWhile isSpace ds) < length (c # cs)"
proof -
  assume a: "dropWhile isSpace (c # cs) = d # ds"
  have "length (d # ds) \<le> length (c # cs)"
    using length_dropWhile_le [of isSpace "c # cs"] by (simp only: a)
  moreover have "length (dropWhile isSpace ds) \<le> length ds"
    by (rule length_dropWhile_le)
  ultimately show ?thesis by simp
qed

lemma comma_not_space: "\<not> isSpace (CHR '','')"
  by (simp add: isSpace_def)

text \<open>If the output of the normaliser has a comma after its leading white space, so
  has its input.\<close>

lemma dropWhile_format_comma:
  "dropWhile isSpace (formatSearchString u) = CHR '','' # ds \<Longrightarrow>
   \<exists>ds'. dropWhile isSpace u = CHR '','' # ds'"
proof (induction u arbitrary: ds)
  case Nil
  then show ?case by simp
next
  case (Cons c cs)
  show ?case
  proof (cases "\<exists>ds'. dropWhile isSpace (c # cs) = CHR '','' # ds'")
    case True
    then show ?thesis .
  next
    case False
    then have fmt: "formatSearchString (c # cs) = c # formatSearchString cs"
      by (rule format_Cons_other)
    show ?thesis
    proof (cases "isSpace c")
      case True
      with Cons.prems fmt have "dropWhile isSpace (formatSearchString cs) = CHR '','' # ds"
        by (simp del: formatSearchString.simps)
      then have "\<exists>ds'. dropWhile isSpace cs = CHR '','' # ds'"
        by (rule Cons.IH)
      with True show ?thesis by simp
    next
      case nsp: False
      with Cons.prems fmt have "c = CHR '',''" by (simp del: formatSearchString.simps)
      with nsp show ?thesis by simp
    qed
  qed
qed

lemma format_no_leading_space:
  assumes "dropWhile isSpace u = u"
  shows "dropWhile isSpace (formatSearchString u) = formatSearchString u"
proof (cases u)
  case Nil
  then show ?thesis by simp
next
  case (Cons c cs)
  with assms have nsp: "\<not> isSpace c"
    by (metis dropWhile_eq_Cons_conv)
  show ?thesis
  proof (cases "\<exists>ds. dropWhile isSpace (c # cs) = CHR '','' # ds")
    case True
    then obtain ds where "dropWhile isSpace (c # cs) = CHR '','' # ds" by blast
    then have "formatSearchString (c # cs) = CHR '','' # formatSearchString (dropWhile isSpace ds)"
      by (rule format_Cons_comma)
    with Cons comma_not_space show ?thesis by (simp del: formatSearchString.simps)
  next
    case False
    then have "formatSearchString (c # cs) = c # formatSearchString cs"
      by (rule format_Cons_other)
    with Cons nsp show ?thesis by (simp del: formatSearchString.simps)
  qed
qed

text \<open>Normalising twice is normalising once.\<close>

lemma formatSearchString_idem: "formatSearchString (formatSearchString s) = formatSearchString s"
proof (induction "length s" arbitrary: s rule: less_induct)
  case less
  show ?case
  proof (cases s)
    case Nil
    then show ?thesis by simp
  next
    case (Cons c cs)
    show ?thesis
    proof (cases "\<exists>ds. dropWhile isSpace (c # cs) = CHR '','' # ds")
      case True
      then obtain ds where ds: "dropWhile isSpace (c # cs) = CHR '','' # ds" by blast
      let ?u = "dropWhile isSpace ds"
      have fmt: "formatSearchString (c # cs) = CHR '','' # formatSearchString ?u"
        using ds by (rule format_Cons_comma)
      have "length ?u < length s"
        using dropWhile_shorter [OF ds] Cons by simp
      then have ih: "formatSearchString (formatSearchString ?u) = formatSearchString ?u"
        by (rule less.hyps)
      have "dropWhile isSpace ?u = ?u" by (simp add: dropWhile_idem)
      then have nl: "dropWhile isSpace (formatSearchString ?u) = formatSearchString ?u"
        by (rule format_no_leading_space)
      have "dropWhile isSpace (CHR '','' # formatSearchString ?u) = CHR '','' # formatSearchString ?u"
        using comma_not_space by simp
      then have "formatSearchString (CHR '','' # formatSearchString ?u) =
                 CHR '','' # formatSearchString (dropWhile isSpace (formatSearchString ?u))"
        by (rule format_Cons_comma)
      with fmt ih nl Cons show ?thesis by (simp del: formatSearchString.simps)
    next
      case False
      then have fmt: "formatSearchString (c # cs) = c # formatSearchString cs"
        by (rule format_Cons_other)
      have ih: "formatSearchString (formatSearchString cs) = formatSearchString cs"
        using less.hyps [of cs] Cons by simp
      have nocomma: "\<not> (\<exists>ds. dropWhile isSpace (c # formatSearchString cs) = CHR '','' # ds)"
      proof
        assume "\<exists>ds. dropWhile isSpace (c # formatSearchString cs) = CHR '','' # ds"
        then obtain ds where a: "dropWhile isSpace (c # formatSearchString cs) = CHR '','' # ds"
          by blast
        show False
        proof (cases "isSpace c")
          case True
          with a have "dropWhile isSpace (formatSearchString cs) = CHR '','' # ds" by simp
          then obtain ds' where "dropWhile isSpace cs = CHR '','' # ds'"
            using dropWhile_format_comma by blast
          with True False show False by simp
        next
          case nsp: False
          with a have "c = CHR '',''" by simp
          with nsp False show False by simp
        qed
      qed
      have "formatSearchString (c # formatSearchString cs) =
            c # formatSearchString (formatSearchString cs)"
        using nocomma by (rule format_Cons_other)
      with fmt ih Cons show ?thesis by (simp del: formatSearchString.simps)
    qed
  qed
qed

subsection \<open>The filter\<close>

text \<open>The loop returns the rows it was given that pass the row test, in their order,
  after the rows already collected.\<close>

lemma searchLoop_filter:
  "searchLoop lw arr fs acc D = Inr res \<Longrightarrow>
   res = acc @ filter (\<lambda>r. recordMatches lw arr fs r = Inr True) D"
proof (induction D arbitrary: acc)
  case Nil
  then show ?case by simp
next
  case (Cons r D)
  show ?case
  proof (cases "recordMatches lw arr fs r")
    case (Inl e)
    with Cons.prems show ?thesis by simp
  next
    case (Inr b)
    show ?thesis
    proof (cases b)
      case True
      with Inr Cons.prems have "searchLoop lw arr fs (acc @ [r]) D = Inr res" by simp
      then have "res = (acc @ [r]) @ filter (\<lambda>r. recordMatches lw arr fs r = Inr True) D"
        by (rule Cons.IH)
      with Inr True show ?thesis by simp
    next
      case False
      with Inr Cons.prems have "searchLoop lw arr fs acc D = Inr res" by simp
      then have "res = acc @ filter (\<lambda>r. recordMatches lw arr fs r = Inr True) D"
        by (rule Cons.IH)
      with Inr False show ?thesis by simp
    qed
  qed
qed

lemma searchLoop_total:
  "list_all (\<lambda>r. \<exists>b. recordMatches lw arr fs r = Inr b) D \<Longrightarrow>
   \<exists>res. searchLoop lw arr fs acc D = Inr res"
proof (induction D arbitrary: acc)
  case Nil
  then show ?case by simp
next
  case (Cons r D)
  then show ?case
    by (auto split: bool.splits)
qed

lemma someIncludes_textual:
  "list_all (textual r) fs \<Longrightarrow>
   someIncludes lw r fs =
     Inr (list_ex (\<lambda>f. case getField r f of JStr s \<Rightarrow> strIncludes (toLowerCase s) lw | _ \<Rightarrow> False) fs)"
  by (induction fs) (auto simp: textual_def split: jsval.splits)

lemma someEquals_textual:
  "list_all (textual r) fs \<Longrightarrow>
   someEquals arr r fs =
     Inr (list_ex (\<lambda>f. case getField r f of JStr s \<Rightarrow> s \<noteq> [] \<and> toLowerCase s \<in> set arr | _ \<Rightarrow> False) fs)"
  by (induction fs) (auto simp: textual_def Let_def split: jsval.splits)

lemma recordMatches_textual:
  "list_all (textual r) fs \<Longrightarrow>
   recordMatches lw arr fs r =
     Inr (list_ex (\<lambda>f. case getField r f of
                          JStr s \<Rightarrow> strIncludes (toLowerCase s) lw \<or> (s \<noteq> [] \<and> toLowerCase s \<in> set arr)
                        | _ \<Rightarrow> False) fs)"
  unfolding recordMatches_def
  by (simp add: someIncludes_textual someEquals_textual list_ex_iff split: bool.splits)
     (auto split: jsval.splits)

lemma dataTableSearchResult_filter:
  assumes "dataTableSearchResult q fs D = Inr res"
  shows "res = filter (\<lambda>r. recordMatches (toLowerCase (formatSearchString q))
                        (splitOn (CHR '','') (toLowerCase (formatSearchString q))) fs r = Inr True) D"
  using searchLoop_filter [of _ _ fs "[]" D res] assms
  by (simp add: dataTableSearchResult_def Let_def)

text \<open>
  Claim C3, amended. Search is invariant under the normalisation of white space around
  commas: for every dataset, field list and raw query \<open>q\<close>, filtering with the
  normalised form of \<open>q\<close> returns what filtering with \<open>q\<close> returns; in particular
  filtering with the normalised form of \<open>"a , b"\<close> returns the rows that filtering with
  \<open>"a,b"\<close> returns. (White space at the two ends of the query is next to no comma and
  stays.)
\<close>

theorem C3_search_normalization:
  "dataTableSearchResult (formatSearchString q) fs D = dataTableSearchResult q fs D \<and>
   dataTableSearchResult (formatSearchString ''a , b'') fs D = dataTableSearchResult ''a,b'' fs D"
proof
  show g: "dataTableSearchResult (formatSearchString q) fs D = dataTableSearchResult q fs D" for q
    by (simp only: dataTableSearchResult_def formatSearchString_idem)
  have "formatSearchString ''a , b'' = formatSearchString ''a,b''"
    by code_simp
  then show "dataTableSearchResult (formatSearchString ''a , b'') fs D = dataTableSearchResult ''a,b'' fs D"
    using g [of "''a , b''"] by (simp only: dataTableSearchResult_def)
qed

theorem C3_search_normalization_witness:
  "dataTableSearchResult (formatSearchString ''a , b'') [''Name''] [[(''Name'', JStr ''a'')]] =
     Inr [[(''Name'', JStr ''a'')]] \<and>
   dataTableSearchResult ''a,b'' [''Name''] [[(''Name'', JStr ''a'')]] = Inr [[(''Name'', JStr ''a'')]]"
proof -
  have "dataTableSearchResult ''a,b'' [''Name''] [[(''Name'', JStr ''a'')]] = Inr [[(''Name'', JStr ''a'')]]"
    by code_simp
  moreover have "dataTableSearchResult (formatSearchString ''a , b'') [''Name''] [[(''Name'', JStr ''a'')]] =
      dataTableSearchResult ''a,b'' [''Name''] [[(''Name'', JStr ''a'')]]"
    using C3_search_normalization [of "''a , b''" "[''Name'']" "[[(''Name'', JStr ''a'')]]"]
    by (rule conjunct2)
  ultimately show ?thesis by (simp only: simp_thms)
qed

text \<open>
  Claim C3 as stated fails: the normal form of \<open>" a , b "\<close> is \<open>" a,b "\<close>, whose terms
  are \<open>" a"\<close> and \<open>"b "\<close>. A row named \<open>"a"\<close> is found by \<open>"a,b"\<close> and not by it.
\<close>

theorem C3_outer_whitespace_counterexample:
  "formatSearchString '' a , b '' = '' a,b '' \<and>
   dataTableSearchResult (formatSearchString '' a , b '') [''Name''] [[(''Name'', JStr ''a'')]] = Inr [] \<and>
   dataTableSearchResult ''a,b'' [''Name''] [[(''Name'', JStr ''a'')]] = Inr [[(''Name'', JStr ''a'')]]"
  by code_simp




text \<open>
  Claim C10. Whenever \<open>dataTableSearchResult\<close> returns, what it returns is a
  subsequence of the dataset it was given: rows of the input, each position taken at
  most once, in their original relative order. It does return on every dataset whose
  configured fields are textual.
\<close>

theorem C10_search_result_subseq:
  "(dataTableSearchResult q fs D = Inr res \<longrightarrow> subseq res D) \<and>
   (list_all (\<lambda>r. list_all (textual r) fs) D \<longrightarrow>
      (\<exists>res'. dataTableSearchResult q fs D = Inr res' \<and> subseq res' D))"
proof (intro conjI impI)
  assume "dataTableSearchResult q fs D = Inr res"
  then show "subseq res D"
    using dataTableSearchResult_filter by (metis subseq_filter_left)
next
  let ?lw = "toLowerCase (formatSearchString q)"
  let ?arr = "splitOn (CHR '','') (toLowerCase (formatSearchString q))"
  assume a: "list_all (\<lambda>r. list_all (textual r) fs) D"
  have "list_all (\<lambda>r. \<exists>b. recordMatches ?lw ?arr fs r = Inr b) D"
    using a recordMatches_textual by (simp add: list_all_iff)
  then obtain res' where r: "searchLoop ?lw ?arr fs [] D = Inr res'"
    using searchLoop_total by blast
  then have d: "dataTableSearchResult q fs D = Inr res'"
    by (simp add: dataTableSearchResult_def Let_def)
  then have "subseq res' D"
    using dataTableSearchResult_filter by (metis subseq_filter_left)
  with d show "\<exists>res'. dataTableSearchResult q fs D = Inr res' \<and> subseq res' D"
    by blast
qed

theorem C10_search_result_subseq_witness:
  "dataTableSearchResult ''555-1234,Acme'' [''Name'', ''Phone''] exampleAccounts =
     Inr [[(''Id'', JStr ''001''), (''Name'', JStr ''Globex''), (''Phone'', JStr ''555-1234'')]] \<and>
   subseq [[(''Id'', JStr ''001''), (''Name'', JStr ''Globex''), (''Phone'', JStr ''555-1234'')]]
     exampleAccounts \<and>
   list_all (\<lambda>r. list_all (textual r) [''Name'', ''Phone'']) exampleAccounts"
proof -
  have e: "dataTableSearchResult ''555-1234,Acme'' [''Name'', ''Phone''] exampleAccounts =
     Inr [[(''Id'', JStr ''001''), (''Name'', JStr ''Globex''), (''Phone'', JStr ''555-1234'')]]"
    by code_simp
  have t: "list_all (\<lambda>r. list_all (textual r) [''Name'', ''Phone'']) exampleAccounts"
    by code_simp
  from C10_search_result_subseq [of "''555-1234,Acme''" "[''Name'', ''Phone'']" exampleAccounts
      "[[(''Id'', JStr ''001''), (''Name'', JStr ''Globex''), (''Phone'', JStr ''555-1234'')]]"] e
  have "subseq [[(''Id'', JStr ''001''), (''Name'', JStr ''Globex''), (''Phone'', JStr ''555-1234'')]]
     exampleAccounts"
    by blast
  with e t show ?thesis by blast
qed

section \<open>Properties of the sort engine\<close>

subsection \<open>The sort keeps the rows\<close>

lemma insertSorted_Cons:
  assumes "insertSorted cmp x (y # ys) = Inr zs"
  shows "(\<exists>n. cmp x y = Inr n \<and> n < 0 \<and> zs = x # y # ys) \<or>
         (\<exists>n zs'. cmp x y = Inr n \<and> \<not> n < 0 \<and> insertSorted cmp x ys = Inr zs' \<and> zs = y # zs')"
proof (cases "cmp x y")
  case (Inl e)
  with assms show ?thesis by simp
next
  case (Inr n)
  show ?thesis
  proof (cases "n < 0")
    case True
    with Inr assms show ?thesis by simp
  next
    case False
    show ?thesis
    proof (cases "insertSorted cmp x ys")
      case (Inl e)
      with Inr False assms show ?thesis by simp
    next
      case r: (Inr zs')
      with Inr False assms show ?thesis by simp
    qed
  qed
qed

lemma insertSorted_set:
  "insertSorted cmp x ys = Inr zs \<Longrightarrow> set zs = insert x (set ys)"
proof (induction ys arbitrary: zs)
  case Nil
  then show ?case by auto
next
  case (Cons y ys)
  from insertSorted_Cons [OF Cons.prems] show ?case
  proof
    assume "\<exists>n. cmp x y = Inr n \<and> n < 0 \<and> zs = x # y # ys"
    then show ?thesis by auto
  next
    assume "\<exists>n zs'. cmp x y = Inr n \<and> \<not> n < 0 \<and> insertSorted cmp x ys = Inr zs' \<and> zs = y # zs'"
    then obtain zs' where z: "insertSorted cmp x ys = Inr zs'" "zs = y # zs'" by blast
    from Cons.IH [OF z(1)] z(2) show ?thesis by auto
  qed
qed

lemma insertSorted_length:
  "insertSorted cmp x ys = Inr zs \<Longrightarrow> length zs = Suc (length ys)"
proof (induction ys arbitrary: zs)
  case Nil
  then show ?case by auto
next
  case (Cons y ys)
  from insertSorted_Cons [OF Cons.prems] show ?case
  proof
    assume "\<exists>n. cmp x y = Inr n \<and> n < 0 \<and> zs = x # y # ys"
    then show ?thesis by auto
  next
    assume "\<exists>n zs'. cmp x y = Inr n \<and> \<not> n < 0 \<and> insertSorted cmp x ys = Inr zs' \<and> zs = y # zs'"
    then obtain zs' where z: "insertSorted cmp x ys = Inr zs'" "zs = y # zs'" by blast
    from Cons.IH [OF z(1)] z(2) show ?thesis by simp
  qed
qed

lemma sortLoop_length:
  "sortLoop cmp acc xs = Inr zs \<Longrightarrow> length zs = length acc + length xs"
proof (induction xs arbitrary: acc)
  case Nil
  then show ?case by simp
next
  case (Cons x xs)
  show ?case
  proof (cases "insertSorted cmp x acc")
    case (Inl e)
    with Cons.prems show ?thesis by simp
  next
    case (Inr acc')
    with Cons.prems have "sortLoop cmp acc' xs = Inr zs" by simp
    then have "length zs = length acc' + length xs" by (rule Cons.IH)
    with insertSorted_length [OF Inr] show ?thesis by simp
  qed
qed

lemma arraySort_length: "arraySort cmp xs = Inr zs \<Longrightarrow> length zs = length xs"
  using sortLoop_length [of cmp "[]" xs zs] by (simp add: arraySort_def)

lemma jsonClone_length: "length (jsonClone h data) = length data"
  by (simp add: jsonClone_def)

subsection \<open>The three ways out of the \<open>try\<close> block\<close>

lemma handleSort_try_None:
  "detail event = None \<Longrightarrow> handleSort_try h event c s tableData = (c, s, Inl TypeError)"
  by (simp only: handleSort_try_def option.case)

lemma handleSort_try_Inl:
  assumes "detail event = Some d"
    and "arraySort (compareRows h (fieldName d) (sortDirection d)) (jsonClone h (s ! tableData)) = Inl e"
  shows "handleSort_try h event c s tableData =
           (c\<lparr>sortedBy := fieldName d, sortedDirection := sortDirection d\<rparr>,
            s @ [jsonClone h (s ! tableData)], Inl e)"
  by (simp only: handleSort_try_def assms(1) option.case Let_def nth_append_length assms(2) sum.case)

lemma handleSort_try_Inr:
  assumes "detail event = Some d"
    and "arraySort (compareRows h (fieldName d) (sortDirection d)) (jsonClone h (s ! tableData)) = Inr sortedRows"
  shows "handleSort_try h event c s tableData =
           (c\<lparr>sortedBy := fieldName d, sortedDirection := sortDirection d\<rparr>,
            s @ [sortedRows], Inr (length s))"
  by (simp only: handleSort_try_def assms(1) option.case Let_def nth_append_length assms(2) sum.case
        list_update_length)

lemma handleSort_try_store:
  assumes "handleSort_try h event c s tableData = (c', s', out)"
  shows "(s' = s \<and> out = Inl TypeError) \<or>
         (\<exists>e. s' = s @ [jsonClone h (s ! tableData)] \<and> out = Inl e) \<or>
         (\<exists>sortedRows. s' = s @ [sortedRows] \<and> out = Inr (length s) \<and>
            length sortedRows = length (s ! tableData))"
proof (cases "detail event")
  case None
  from handleSort_try_None [OF None, of h c s tableData] assms show ?thesis by simp
next
  case (Some d)
  show ?thesis
  proof (cases "arraySort (compareRows h (fieldName d) (sortDirection d)) (jsonClone h (s ! tableData))")
    case (Inl e)
    from handleSort_try_Inl [OF Some Inl, of c] assms show ?thesis by simp
  next
    case (Inr sortedRows)
    then have "length sortedRows = length (s ! tableData)"
      using arraySort_length jsonClone_length by metis
    with handleSort_try_Inr [OF Some Inr, of c] assms show ?thesis by simp
  qed
qed

text \<open>
  Claim C7. For every store, dataset reference and sort event: if the \<open>try\<close> block of
  \<open>handleSort\<close> raises, \<open>handleSort\<close> returns the reference it was given, and the
  dataset behind that reference is what it was before the call. \<open>handleSort\<close> itself
  is a total function: no error leaves it.
\<close>

theorem C7_handleSort_recovers:
  assumes "tableData < length s"
    and "handleSort_try h event c s tableData = (c', s', Inl e)"
  shows "handleSort h event c s tableData = (c', s', tableData) \<and>
         tableData < length s' \<and> s' ! tableData = s ! tableData"
proof -
  have r: "handleSort h event c s tableData = (c', s', tableData)"
    by (simp only: handleSort_def assms(2) prod.case sum.case)
  have "s' = s \<or> s' = s @ [jsonClone h (s ! tableData)]"
    using handleSort_try_store [OF assms(2)] by auto
  with assms(1) have "tableData < length s' \<and> s' ! tableData = s ! tableData"
    by (auto simp: nth_append)
  with r show ?thesis by simp
qed

text \<open>A sort event whose field name is the number 5: the comparator raises on the
  first pair of rows.\<close>

theorem C7_handleSort_recovers_witness:
  "(0::nat) < length [exampleFlags] \<and>
   handleSort_try exampleHost (sortEvent (JNum 5) (JStr ''asc'')) (initialComponent []) [exampleFlags] 0 =
     ((initialComponent [])\<lparr>sortedBy := JNum 5, sortedDirection := JStr ''asc''\<rparr>,
      [exampleFlags, exampleFlags], Inl TypeError) \<and>
   handleSort exampleHost (sortEvent (JNum 5) (JStr ''asc'')) (initialComponent []) [exampleFlags] 0 =
     ((initialComponent [])\<lparr>sortedBy := JNum 5, sortedDirection := JStr ''asc''\<rparr>,
      [exampleFlags, exampleFlags], 0) \<and>
   [exampleFlags, exampleFlags] ! 0 = [exampleFlags] ! 0"
proof -
  have l: "(0::nat) < length [exampleFlags]" by simp
  have t: "handleSort_try exampleHost (sortEvent (JNum 5) (JStr ''asc'')) (initialComponent []) [exampleFlags] 0 =
     ((initialComponent [])\<lparr>sortedBy := JNum 5, sortedDirection := JStr ''asc''\<rparr>,
      [exampleFlags, exampleFlags], Inl TypeError)"
    by code_simp
  from C7_handleSort_recovers [OF l t] l t show ?thesis by blast
qed



subsection \<open>Null keys\<close>

lemma foldl_resolveStep_nullish: "isNullish v \<Longrightarrow> isNullish (foldl resolveStep v ks)"
proof (induction ks arbitrary: v)
  case Nil
  then show ?case by simp
next
  case (Cons k ks)
  from Cons.prems have "resolveStep v k = JNull"
    by (cases v) (simp_all add: resolveStep_def)
  then show ?case using Cons.IH [of JNull] by simp
qed

lemma resolveFieldValue_path:
  "p \<noteq> [] \<Longrightarrow>
   resolveFieldValue (JObj a) (JStr p) = Inr (foldl resolveStep (JObj a) (splitOn (CHR ''.'') p))"
  by (simp add: resolveFieldValue_def)

lemma compareRows_nullish_left:
  assumes "resolveFieldValue (JObj a) f = Inr va" "resolveFieldValue (JObj b) f = Inr vb"
    and "isNullish va"
  shows "compareRows h f d a b = Inr (if isNullish vb then 0 else 1)"
  using assms by (simp add: compareRows_def compareValues_def)

lemma compareRows_nullish_right:
  assumes "resolveFieldValue (JObj a) f = Inr va" "resolveFieldValue (JObj b) f = Inr vb"
    and "isNullish vb"
  shows "compareRows h f d a b = Inr (if isNullish va then 0 else - 1)"
  using assms by (simp add: compareRows_def compareValues_def)

lemma compareRows_Inr:
  assumes "compareRows h f d a b = Inr n"
  shows "\<exists>va vb. resolveFieldValue (JObj a) f = Inr va \<and> resolveFieldValue (JObj b) f = Inr vb"
proof (cases "resolveFieldValue (JObj a) f")
  case (Inl e)
  with assms show ?thesis by (simp add: compareRows_def)
next
  case a: (Inr va)
  show ?thesis
  proof (cases "resolveFieldValue (JObj b) f")
    case (Inl e)
    with a assms show ?thesis by (simp add: compareRows_def)
  next
    case (Inr vb)
    with a show ?thesis by simp
  qed
qed

lemma nullKey_left_nonneg:
  assumes "nullKey f x" and "compareRows h f d x y = Inr n"
  shows "\<not> n < 0"
proof -
  obtain vx vy where r: "resolveFieldValue (JObj x) f = Inr vx" "resolveFieldValue (JObj y) f = Inr vy"
    using compareRows_Inr [OF assms(2)] by blast
  with assms(1) have "isNullish vx" by (simp add: nullKey_def)
  from compareRows_nullish_left [OF r this, of h d] assms(2) show ?thesis
    by (simp split: if_splits)
qed

lemma nullKey_right_neg:
  assumes "\<not> nullKey f x" and "nullKey f y" and "compareRows h f d x y = Inr n"
  shows "n < 0"
proof -
  obtain vx vy where r: "resolveFieldValue (JObj x) f = Inr vx" "resolveFieldValue (JObj y) f = Inr vy"
    using compareRows_Inr [OF assms(3)] by blast
  with assms(1,2) have "\<not> isNullish vx" "isNullish vy" by (simp_all add: nullKey_def)
  with compareRows_nullish_right [OF r, of h d] assms(3) show ?thesis
    by simp
qed

lemma insertSorted_nulls_last:
  assumes "sorted_wrt (\<lambda>a b. nullKey f a \<longrightarrow> nullKey f b) ys"
    and "insertSorted (compareRows h f d) x ys = Inr zs"
  shows "sorted_wrt (\<lambda>a b. nullKey f a \<longrightarrow> nullKey f b) zs"
  using assms
proof (induction ys arbitrary: zs)
  case Nil
  then show ?case by auto
next
  case (Cons y ys)
  from insertSorted_Cons [OF Cons.prems(2)] show ?case
  proof
    assume "\<exists>n. compareRows h f d x y = Inr n \<and> n < 0 \<and> zs = x # y # ys"
    then obtain n where n: "compareRows h f d x y = Inr n" "n < 0" "zs = x # y # ys" by blast
    then have "\<not> nullKey f x" using nullKey_left_nonneg by blast
    with n(3) Cons.prems(1) show ?thesis by simp
  next
    assume "\<exists>n zs'. compareRows h f d x y = Inr n \<and> \<not> n < 0 \<and>
              insertSorted (compareRows h f d) x ys = Inr zs' \<and> zs = y # zs'"
    then obtain n zs' where n: "compareRows h f d x y = Inr n" "\<not> n < 0"
        "insertSorted (compareRows h f d) x ys = Inr zs'" "zs = y # zs'" by blast
    from Cons.prems(1) have s: "sorted_wrt (\<lambda>a b. nullKey f a \<longrightarrow> nullKey f b) ys"
      and yy: "\<forall>z\<in>set ys. nullKey f y \<longrightarrow> nullKey f z" by simp_all
    have tail: "sorted_wrt (\<lambda>a b. nullKey f a \<longrightarrow> nullKey f b) zs'"
      using Cons.IH [OF s n(3)] .
    have "nullKey f y \<longrightarrow> nullKey f x"
      using nullKey_right_neg [of f x y h d n] n(1,2) by blast
    with yy insertSorted_set [OF n(3)] have "\<forall>z\<in>set zs'. nullKey f y \<longrightarrow> nullKey f z"
      by simp
    with tail n(4) show ?thesis by simp
  qed
qed

lemma sortLoop_nulls_last:
  assumes "sorted_wrt (\<lambda>a b. nullKey f a \<longrightarrow> nullKey f b) acc"
    and "sortLoop (compareRows h f d) acc xs = Inr zs"
  shows "sorted_wrt (\<lambda>a b. nullKey f a \<longrightarrow> nullKey f b) zs"
  using assms
proof (induction xs arbitrary: acc)
  case Nil
  then show ?case by simp
next
  case (Cons x xs)
  show ?case
  proof (cases "insertSorted (compareRows h f d) x acc")
    case (Inl e)
    with Cons.prems(2) show ?thesis by simp
  next
    case (Inr acc')
    with Cons.prems(2) have l: "sortLoop (compareRows h f d) acc' xs = Inr zs" by simp
    from insertSorted_nulls_last [OF Cons.prems(1) Inr] l show ?thesis by (rule Cons.IH)
  qed
qed

text \<open>
  Claim C4. In the comparator, a row whose sort key resolves to \<open>null\<close> or \<open>undefined\<close>
  compares as greater than every row with another value, whatever the direction, and
  as equal to a row whose key is null too. A dotted path that stops resolving at some
  segment resolves to a null key. In the sorted array no row with a null key stands
  before a row with another key.
\<close>

theorem C4_null_values_sort_last:
  "(resolveFieldValue (JObj a) f = Inr va \<and> resolveFieldValue (JObj b) f = Inr vb \<and> isNullish va \<longrightarrow>
      (if isNullish vb
       then compareRows h f d a b = Inr 0 \<and> compareRows h f d b a = Inr 0
       else compareRows h f d a b = Inr 1 \<and> compareRows h f d b a = Inr (- 1))) \<and>
   (p \<noteq> [] \<and> splitOn (CHR ''.'') p = ks1 @ ks2 \<and> isNullish (foldl resolveStep (JObj a) ks1) \<longrightarrow>
      (\<exists>v. resolveFieldValue (JObj a) (JStr p) = Inr v \<and> isNullish v)) \<and>
   (arraySort (compareRows h f d) xs = Inr zs \<longrightarrow>
      sorted_wrt (\<lambda>r r'. nullKey f r \<longrightarrow> nullKey f r') zs)"
proof (intro conjI impI)
  assume a: "resolveFieldValue (JObj a) f = Inr va \<and> resolveFieldValue (JObj b) f = Inr vb \<and> isNullish va"
  then have r: "resolveFieldValue (JObj a) f = Inr va" "resolveFieldValue (JObj b) f = Inr vb"
    and n: "isNullish va" by simp_all
  show "if isNullish vb
       then compareRows h f d a b = Inr 0 \<and> compareRows h f d b a = Inr 0
       else compareRows h f d a b = Inr 1 \<and> compareRows h f d b a = Inr (- 1)"
    using compareRows_nullish_left [OF r n, of h d] compareRows_nullish_right [OF r(2) r(1) n, of h d]
    by simp
next
  assume a: "p \<noteq> [] \<and> splitOn (CHR ''.'') p = ks1 @ ks2 \<and> isNullish (foldl resolveStep (JObj a) ks1)"
  then have "isNullish (foldl resolveStep (foldl resolveStep (JObj a) ks1) ks2)"
    using foldl_resolveStep_nullish by blast
  with a have "isNullish (foldl resolveStep (JObj a) (splitOn (CHR ''.'') p))" by simp
  with a show "\<exists>v. resolveFieldValue (JObj a) (JStr p) = Inr v \<and> isNullish v"
    using resolveFieldValue_path by simp
next
  assume "arraySort (compareRows h f d) xs = Inr zs"
  then have "sortLoop (compareRows h f d) [] xs = Inr zs" by (simp add: arraySort_def)
  then show "sorted_wrt (\<lambda>r r'. nullKey f r \<longrightarrow> nullKey f r') zs"
    using sortLoop_nulls_last [of f "[]" h d xs zs] by simp
qed

theorem C4_null_values_sort_last_witness:
  "resolveFieldValue (JObj (exampleOwners ! 0)) (JStr ''Owner.Name'') = Inr JNull \<and>
   resolveFieldValue (JObj (exampleOwners ! 1)) (JStr ''Owner.Name'') = Inr (JStr ''Ada'') \<and>
   compareRows exampleHost (JStr ''Owner.Name'') (JStr ''asc'') (exampleOwners ! 0) (exampleOwners ! 1) = Inr 1 \<and>
   compareRows exampleHost (JStr ''Owner.Name'') (JStr ''asc'') (exampleOwners ! 1) (exampleOwners ! 0) = Inr (- 1) \<and>
   compareRows exampleHost (JStr ''Owner.Name'') (JStr ''desc'') (exampleOwners ! 0) (exampleOwners ! 1) = Inr 1 \<and>
   compareRows exampleHost (JStr ''Owner.Name'') (JStr ''desc'') (exampleOwners ! 1) (exampleOwners ! 0) = Inr (- 1) \<and>
   compareRows exampleHost (JStr ''Owner.Name'') (JStr ''desc'') (exampleOwners ! 0) (exampleOwners ! 0) = Inr 0"
proof -
  have a: "resolveFieldValue (JObj (exampleOwners ! 0)) (JStr ''Owner.Name'') = Inr JNull"
    by code_simp
  have b: "resolveFieldValue (JObj (exampleOwners ! 1)) (JStr ''Owner.Name'') = Inr (JStr ''Ada'')"
    by code_simp
  have n: "isNullish JNull" by simp
  have m: "\<not> isNullish (JStr ''Ada'')" by simp
  note t = C4_null_values_sort_last [THEN conjunct1, rule_format]
  from t [of "exampleOwners ! 0" "JStr ''Owner.Name''" JNull "exampleOwners ! 1" "JStr ''Ada''"
      exampleHost "JStr ''asc''"] a b n m
  have asc: "compareRows exampleHost (JStr ''Owner.Name'') (JStr ''asc'') (exampleOwners ! 0) (exampleOwners ! 1) = Inr 1 \<and>
   compareRows exampleHost (JStr ''Owner.Name'') (JStr ''asc'') (exampleOwners ! 1) (exampleOwners ! 0) = Inr (- 1)"
    by simp
  from t [of "exampleOwners ! 0" "JStr ''Owner.Name''" JNull "exampleOwners ! 1" "JStr ''Ada''"
      exampleHost "JStr ''desc''"] a b n m
  have desc: "compareRows exampleHost (JStr ''Owner.Name'') (JStr ''desc'') (exampleOwners ! 0) (exampleOwners ! 1) = Inr 1 \<and>
   compareRows exampleHost (JStr ''Owner.Name'') (JStr ''desc'') (exampleOwners ! 1) (exampleOwners ! 0) = Inr (- 1)"
    by simp
  from t [of "exampleOwners ! 0" "JStr ''Owner.Name''" JNull "exampleOwners ! 0" JNull
      exampleHost "JStr ''desc''"] a n
  have eq: "compareRows exampleHost (JStr ''Owner.Name'') (JStr ''desc'') (exampleOwners ! 0) (exampleOwners ! 0) = Inr 0"
    by simp
  from a b asc desc eq show ?thesis by blast
qed

subsection \<open>Booleans\<close>

text \<open>
  Claim C2 on the code. With direction \<open>'asc'\<close> the comparator puts \<open>true\<close> before
  \<open>false\<close>, and with any other direction \<open>false\<close> before \<open>true\<close>: sorting the two
  example rows ascending by \<open>Active\<close> returns the row with \<open>true\<close> first.
\<close>

theorem C2_boolean_order_on_code:
  "compareValues h (JStr ''asc'') (JBool False) (JBool True) = 1 \<and>
   compareValues h (JStr ''asc'') (JBool True) (JBool False) = - 1 \<and>
   compareValues h (JStr ''desc'') (JBool False) (JBool True) = - 1 \<and>
   compareValues h (JStr ''desc'') (JBool True) (JBool False) = 1 \<and>
   handleSort exampleHost (sortEvent (JStr ''Active'') (JStr ''asc'')) (initialComponent []) [exampleFlags] 0 =
     ((initialComponent [])\<lparr>sortedBy := JStr ''Active'', sortedDirection := JStr ''asc''\<rparr>,
      [exampleFlags,
       [[(''Id'', JStr ''002''), (''Active'', JBool True)],
        [(''Id'', JStr ''001''), (''Active'', JBool False)]]], 1)"
proof -
  have "handleSort exampleHost (sortEvent (JStr ''Active'') (JStr ''asc'')) (initialComponent []) [exampleFlags] 0 =
     ((initialComponent [])\<lparr>sortedBy := JStr ''Active'', sortedDirection := JStr ''asc''\<rparr>,
      [exampleFlags,
       [[(''Id'', JStr ''002''), (''Active'', JBool True)],
        [(''Id'', JStr ''001''), (''Active'', JBool False)]]], 1)"
    by code_simp
  then show ?thesis by (simp add: compareValues_def)
qed

section \<open>Properties of the selection tracker\<close>







section \<open>Properties of the component\<close>

subsection \<open>The reconciler\<close>

lemma maintainSelectionState_selection:
  "selectedRowsArray (maintainSelectionState c) =
     filter (\<lambda>i. i \<in> rowId ` set (tableData' c)) (selectedRowsArray c)"
  by (simp add: maintainSelectionState_def list_ex_iff image_iff) (metis)

lemma maintainSelectionState_fields:
  "tableData' (maintainSelectionState c) = tableData' c"
  "dataTableValue (maintainSelectionState c) = dataTableValue c"
  "dataToShow (maintainSelectionState c) = dataToShow c"
  by (simp_all add: maintainSelectionState_def)

lemma setDataToReadOnlyTable_fields:
  "tableData' (setDataToReadOnlyTable c) = tableData' c"
  "dataTableValue (setDataToReadOnlyTable c) = dataTableValue c"
  "dataToShow (setDataToReadOnlyTable c) = dataToShow c"
  "selectedRowsArray (setDataToReadOnlyTable c) = selectedRowsArray c"
  by (simp_all add: setDataToReadOnlyTable_def Let_def)

lemma handleSearch_Inr:
  assumes "handleSearch c = Inr c'"
  shows "\<exists>rows. c' = maintainSelectionState
                        (c\<lparr>dataTableValue := rows, dataToShow := slice 0 PAGE_SIZE rows\<rparr>)"
proof (cases "searchValue c \<noteq> []")
  case True
  show ?thesis
  proof (cases "dataTableSearchResult (formatSearchString (searchValue c))
                  (searchableFields c) (tableData' c)")
    case (Inl e)
    with True assms show ?thesis by (simp add: handleSearch_def)
  next
    case (Inr rows)
    with True assms show ?thesis by (auto simp: handleSearch_def)
  qed
next
  case False
  with assms show ?thesis by (auto simp: handleSearch_def)
qed

lemma handleSort_component:
  "\<exists>c1 s' a. handleSort h event c s tableData = (c1, s', a) \<and>
      tableData' c1 = tableData' c \<and> selectedRowsArray c1 = selectedRowsArray c \<and>
      dataTableValue c1 = dataTableValue c \<and> dataToShow c1 = dataToShow c"
proof (cases "detail event")
  case None
  then show ?thesis by (simp add: handleSort_def handleSort_try_def)
next
  case (Some d)
  show ?thesis
  proof (cases "arraySort (compareRows h (fieldName d) (sortDirection d))
                  ((s @ [jsonClone h (s ! tableData)]) ! length s)")
    case (Inl e)
    with Some show ?thesis by (simp add: handleSort_def handleSort_try_def Let_def)
  next
    case (Inr rows)
    with Some show ?thesis by (simp add: handleSort_def handleSort_try_def Let_def)
  qed
qed

lemma component_handleSort_form:
  "\<exists>c1 rows. tableData' c1 = tableData' c \<and> selectedRowsArray c1 = selectedRowsArray c \<and>
     component_handleSort h event c =
       maintainSelectionState (c1\<lparr>dataTableValue := rows, dataToShow := slice 0 PAGE_SIZE rows\<rparr>)"
proof -
  obtain c1 s' a where r: "handleSort h event c [tableData' c] 0 = (c1, s', a)"
    and c1: "tableData' c1 = tableData' c" "selectedRowsArray c1 = selectedRowsArray c"
    using handleSort_component by blast
  have "component_handleSort h event c =
       maintainSelectionState (c1\<lparr>dataTableValue := s' ! a, dataToShow := slice 0 PAGE_SIZE (s' ! a)\<rparr>)"
    by (simp add: component_handleSort_def r Let_def)
  with c1 show ?thesis by blast
qed

text \<open>
  Claim C1, amended. After a pass of the reconciler (\<open>maintainSelectionState\<close>, on its
  own or at the end of load-more, sort and search) every identifier left in the
  selection is the \<open>Id\<close> of some row of \<open>_tableData\<close>, the dataset the component was
  given: the pass keeps exactly the selected identifiers that occur there and drops
  the others. (The reference set is \<open>_tableData\<close>, not the filtered working set.)
\<close>

theorem C1_selection_within_table_data:
  "selectedRowsArray (maintainSelectionState c) =
     filter (\<lambda>i. i \<in> rowId ` set (tableData' c)) (selectedRowsArray c) \<and>
   set (selectedRowsArray (maintainSelectionState c)) \<subseteq> rowId ` set (tableData' c) \<and>
   tableData' (maintainSelectionState c) = tableData' c \<and>
   set (selectedRowsArray (handleLoadMore c)) \<subseteq> rowId ` set (tableData' (handleLoadMore c)) \<and>
   set (selectedRowsArray (component_handleSort h event c)) \<subseteq>
     rowId ` set (tableData' (component_handleSort h event c)) \<and>
   (handleSearch c = Inr c' \<longrightarrow> set (selectedRowsArray c') \<subseteq> rowId ` set (tableData' c'))"
proof (intro conjI impI)
  show "selectedRowsArray (maintainSelectionState c) =
     filter (\<lambda>i. i \<in> rowId ` set (tableData' c)) (selectedRowsArray c)"
    by (rule maintainSelectionState_selection)
  show sub: "set (selectedRowsArray (maintainSelectionState c)) \<subseteq> rowId ` set (tableData' c)" for c
    by (auto simp: maintainSelectionState_selection)
  show "tableData' (maintainSelectionState c) = tableData' c"
    by (rule maintainSelectionState_fields)
  show "set (selectedRowsArray (handleLoadMore c)) \<subseteq> rowId ` set (tableData' (handleLoadMore c))"
    unfolding handleLoadMore_def
    using sub [of "c\<lparr>dataToShow := dataToShow c @
            slice (length (dataToShow c)) (length (dataToShow c) + PAGE_SIZE) (dataTableValue c),
          isLazyLoading := False\<rparr>"]
    by (simp add: maintainSelectionState_fields)
  show "set (selectedRowsArray (component_handleSort h event c)) \<subseteq>
     rowId ` set (tableData' (component_handleSort h event c))"
  proof -
    obtain c1 rows where f: "component_handleSort h event c =
       maintainSelectionState (c1\<lparr>dataTableValue := rows, dataToShow := slice 0 PAGE_SIZE rows\<rparr>)"
      using component_handleSort_form by blast
    show ?thesis
      using sub [of "c1\<lparr>dataTableValue := rows, dataToShow := slice 0 PAGE_SIZE rows\<rparr>"]
      by (simp add: f maintainSelectionState_fields)
  qed
next
  assume "handleSearch c = Inr c'"
  then obtain rows where f: "c' = maintainSelectionState
                        (c\<lparr>dataTableValue := rows, dataToShow := slice 0 PAGE_SIZE rows\<rparr>)"
    using handleSearch_Inr by blast
  have "set (selectedRowsArray (maintainSelectionState
            (c\<lparr>dataTableValue := rows, dataToShow := slice 0 PAGE_SIZE rows\<rparr>))) \<subseteq>
        rowId ` set (tableData' (c\<lparr>dataTableValue := rows, dataToShow := slice 0 PAGE_SIZE rows\<rparr>))"
    by (auto simp: maintainSelectionState_selection)
  then show "set (selectedRowsArray c') \<subseteq> rowId ` set (tableData' c')"
    by (simp add: f maintainSelectionState_fields)
qed

theorem C1_selection_within_table_data_witness:
  "selectedRowsArray
     (maintainSelectionState (exampleComponent\<lparr>selectedRowsArray := [JStr ''002'', JStr ''009'']\<rparr>)) =
     [JStr ''002''] \<and>
   (\<exists>c'. handleSearch exampleComponent = Inr c' \<and>
      set (selectedRowsArray c') \<subseteq> rowId ` set (tableData' c'))"
proof -
  let ?c = "exampleComponent\<lparr>selectedRowsArray := [JStr ''002'', JStr ''009'']\<rparr>"
  have "case handleSearch exampleComponent of Inl e \<Rightarrow> False | Inr c' \<Rightarrow> True"
    by code_simp
  then obtain c' where s: "handleSearch exampleComponent = Inr c'"
    by (cases "handleSearch exampleComponent") auto
  have f: "filter (\<lambda>i. i \<in> rowId ` set (tableData' ?c)) (selectedRowsArray ?c) = [JStr ''002'']"
    by code_simp
  from C1_selection_within_table_data [where c = ?c and h = exampleHost and c' = c'] f
  have "selectedRowsArray (maintainSelectionState ?c) = [JStr ''002'']" by simp
  moreover from C1_selection_within_table_data [where c = exampleComponent and h = exampleHost and c' = c'] s
  have "set (selectedRowsArray c') \<subseteq> rowId ` set (tableData' c')" by blast
  ultimately show ?thesis using s by blast
qed

text \<open>
  Claim C1 as stated fails for the working set: with the second account selected, a
  search for \<open>globex\<close> leaves only the first account in the working set, and the
  reconciler keeps the identifier of the second, which is still a row of \<open>_tableData\<close>.
\<close>

theorem C1_filtered_out_selection_counterexample:
  "(case handleSearch exampleComponent of
      Inl e \<Rightarrow> False
    | Inr c' \<Rightarrow>
        selectedRowsArray c' = [JStr ''002''] \<and>
        map rowId (dataTableValue c') = [JStr ''001''] \<and>
        map rowId (tableData' c') = [JStr ''001'', JStr ''002''])"
  by code_simp

subsection \<open>The visible window\<close>

lemma slice_0: "slice 0 n xs = take n xs"
  by (simp add: slice_def)

lemma windowInv_take: "windowInv (c\<lparr>dataTableValue := rows, dataToShow := take n rows\<rparr>)"
  by (simp add: windowInv_def take_is_prefix)

lemma windowInv_maintain: "windowInv (maintainSelectionState c) = windowInv c"
  by (simp add: windowInv_def maintainSelectionState_fields)

lemma windowInv_readOnly: "windowInv (setDataToReadOnlyTable c) = windowInv c"
  by (simp add: windowInv_def setDataToReadOnlyTable_fields)

lemma handleLoadMore_window:
  assumes "windowInv c"
  shows "dataToShow (handleLoadMore c) =
           take (length (dataToShow c) + PAGE_SIZE) (dataTableValue c)"
proof -
  from assms have "dataToShow c = take (length (dataToShow c)) (dataTableValue c)"
    by (auto simp: windowInv_def prefix_def)
  then have "dataToShow c @ take PAGE_SIZE (drop (length (dataToShow c)) (dataTableValue c)) =
      take (length (dataToShow c) + PAGE_SIZE) (dataTableValue c)"
    by (metis take_add)
  then show ?thesis
    by (simp add: handleLoadMore_def maintainSelectionState_fields slice_def)
qed

lemma handleLoadMore_dataTableValue: "dataTableValue (handleLoadMore c) = dataTableValue c"
  by (simp add: handleLoadMore_def maintainSelectionState_fields)

lemma windowInv_handleLoadMore: "windowInv c \<Longrightarrow> windowInv (handleLoadMore c)"
  using handleLoadMore_window [of c]
  by (simp add: windowInv_def handleLoadMore_dataTableValue take_is_prefix)

lemma component_handleSort_window:
  "dataToShow (component_handleSort h event c) =
     take PAGE_SIZE (dataTableValue (component_handleSort h event c))"
proof -
  obtain c1 rows where f: "component_handleSort h event c =
       maintainSelectionState (c1\<lparr>dataTableValue := rows, dataToShow := slice 0 PAGE_SIZE rows\<rparr>)"
    using component_handleSort_form by blast
  show ?thesis by (simp add: f maintainSelectionState_fields slice_0)
qed

lemma handleSearch_window:
  assumes "handleSearch c = Inr c'"
  shows "dataToShow c' = take PAGE_SIZE (dataTableValue c')"
proof -
  obtain rows where f: "c' = maintainSelectionState
                        (c\<lparr>dataTableValue := rows, dataToShow := slice 0 PAGE_SIZE rows\<rparr>)"
    using handleSearch_Inr [OF assms] by blast
  show ?thesis by (simp add: f maintainSelectionState_fields slice_0)
qed

lemma windowInv_search_try:
  assumes "windowInv c"
  shows "windowInv (case handleSearch (c\<lparr>searchValue := v\<rparr>) of
                      Inl e \<Rightarrow> c\<lparr>searchValue := v\<rparr> | Inr c' \<Rightarrow> c')"
proof (cases "handleSearch (c\<lparr>searchValue := v\<rparr>)")
  case (Inl e)
  with assms show ?thesis by (simp add: windowInv_def)
next
  case (Inr c')
  from handleSearch_window [OF Inr] Inr show ?thesis
    by (simp add: windowInv_def take_is_prefix)
qed

lemma windowInv_setTableData: "windowInv c \<Longrightarrow> windowInv (setTableData sameArray v c)"
  by (cases v)
     (simp_all add: setTableData_def windowInv_readOnly windowInv_take slice_0, simp_all add: windowInv_def)

lemma windowInv_rowSelection: "windowInv c \<Longrightarrow> windowInv (component_handleRowSelection event c)"
proof -
  assume w: "windowInv c"
  obtain c1 result where r: "handleRowSelection event c (tableData' c) = (c1, result)"
    by (cases "handleRowSelection event c (tableData' c)") auto
  have "\<exists>x. c1 = c\<lparr>selectedRows := x\<rparr>"
    using r by (auto simp: handleRowSelection_def Let_def split: if_splits)
  then obtain x where "c1 = c\<lparr>selectedRows := x\<rparr>" by blast
  then have "dataToShow c1 = dataToShow c" "dataTableValue c1 = dataTableValue c"
    by simp_all
  with w show ?thesis
    by (simp add: component_handleRowSelection_def r Let_def windowInv_readOnly
          windowInv_maintain) (simp add: windowInv_def)
qed

lemma windowInv_step: "windowInv c \<Longrightarrow> windowInv (step h c op)"
proof (cases op)
  case (SetTableData sameArray v)
  assume "windowInv c"
  with SetTableData show ?thesis by (simp add: windowInv_setTableData)
next
  case (PreSelection v)
  assume "windowInv c"
  with PreSelection show ?thesis
    by (cases v) (simp_all add: preSelection_def windowInv_def)
next
  case (RowSelection event)
  assume "windowInv c"
  with RowSelection show ?thesis by (simp add: windowInv_rowSelection)
next
  case LoadMore
  assume "windowInv c"
  with LoadMore show ?thesis by (simp add: windowInv_handleLoadMore)
next
  case (Sort event)
  then show ?thesis
    using component_handleSort_window [of h event c]
    by (simp add: windowInv_def take_is_prefix)
next
  case (SearchKeyChange v)
  assume "windowInv c"
  with SearchKeyChange show ?thesis
    by (simp add: handleSearchKeyChange_def windowInv_def)
next
  case (SearchKey keyCode v)
  assume "windowInv c"
  with SearchKey windowInv_search_try [of c v] show ?thesis
    by (simp add: handelSearchKey_def)
next
  case (SearchTextPaste v)
  assume "windowInv c"
  with SearchTextPaste windowInv_search_try [of c v] show ?thesis
    by (simp add: handleSearchTextPaste_def)
next
  case SearchClick
  assume w: "windowInv c"
  show ?thesis
  proof (cases "handleSearch c")
    case (Inl e)
    with w SearchClick show ?thesis by simp
  next
    case (Inr c')
    from handleSearch_window [OF Inr] Inr SearchClick show ?thesis
      by (simp add: windowInv_def take_is_prefix)
  qed
next
  case ReadonlyLoadMore
  assume "windowInv c"
  with ReadonlyLoadMore show ?thesis
    by (simp add: handleReadonlyLoadMore_def windowInv_def)
next
  case (ShowSelectedTableSort event)
  assume w: "windowInv c"
  obtain c1 s' a where r: "handleSort h event c [selectedData c] 0 = (c1, s', a)"
    and c1: "dataTableValue c1 = dataTableValue c" "dataToShow c1 = dataToShow c"
    using handleSort_component by blast
  with w ShowSelectedTableSort show ?thesis
    by (simp add: handleShowSelectedTableSort_def windowInv_def)
qed

lemma windowInv_run: "windowInv c \<Longrightarrow> windowInv (run h c ops)"
  unfolding run_def
  by (induction ops arbitrary: c) (simp_all add: windowInv_step)

lemma windowInv_initial: "windowInv (initialComponent fs)"
  by (simp add: windowInv_def initialComponent_def)

text \<open>
  Claim C9. In every state the component reaches, the visible window \<open>dataToShow\<close> is a
  prefix of the working dataset \<open>dataTableValue\<close> and no longer than it, and every
  operation preserves this. Load-more leaves the dataset as it is and extends the window
  by the next \<open>PAGE_SIZE\<close> rows; after a sort and after a search the window is the
  first \<open>PAGE_SIZE\<close> rows of the new working dataset. With a dataset of 20 rows the
  window is its first 15 rows, and after one load-more all 20 in their order.
\<close>

theorem C9_window_is_prefix:
  "windowInv (run h (initialComponent fs) ops) \<and>
   length (dataToShow (run h (initialComponent fs) ops)) \<le>
     length (dataTableValue (run h (initialComponent fs) ops)) \<and>
   (windowInv c \<longrightarrow>
      windowInv (step h c op) \<and>
      dataTableValue (handleLoadMore c) = dataTableValue c \<and>
      dataToShow (handleLoadMore c) =
        take (length (dataToShow c) + PAGE_SIZE) (dataTableValue c)) \<and>
   dataToShow (component_handleSort h event c) =
     take PAGE_SIZE (dataTableValue (component_handleSort h event c)) \<and>
   (handleSearch c = Inr c' \<longrightarrow> dataToShow c' = take PAGE_SIZE (dataTableValue c')) \<and>
   (length D = 20 \<longrightarrow>
      dataToShow (setTableData False (Some D) c) = take 15 D \<and>
      dataToShow (handleLoadMore (setTableData False (Some D) c)) = D)"
proof (intro conjI impI)
  show w: "windowInv (run h (initialComponent fs) ops)"
    by (rule windowInv_run [OF windowInv_initial])
  then show "length (dataToShow (run h (initialComponent fs) ops)) \<le>
     length (dataTableValue (run h (initialComponent fs) ops))"
    by (simp add: windowInv_def prefix_length_le)
  show "dataToShow (component_handleSort h event c) =
     take PAGE_SIZE (dataTableValue (component_handleSort h event c))"
    by (rule component_handleSort_window)
next
  assume "windowInv c"
  then show "windowInv (step h c op)" by (rule windowInv_step)
  show "dataTableValue (handleLoadMore c) = dataTableValue c"
    by (rule handleLoadMore_dataTableValue)
  from \<open>windowInv c\<close> show "dataToShow (handleLoadMore c) =
        take (length (dataToShow c) + PAGE_SIZE) (dataTableValue c)"
    by (rule handleLoadMore_window)
next
  assume "handleSearch c = Inr c'"
  then show "dataToShow c' = take PAGE_SIZE (dataTableValue c')"
    by (rule handleSearch_window)
next
  assume l: "length D = 20"
  let ?c = "setTableData False (Some D) c"
  show s: "dataToShow ?c = take 15 D"
    by (simp add: setTableData_def setDataToReadOnlyTable_fields slice_0 PAGE_SIZE_def)
  have v: "dataTableValue ?c = D"
    by (simp add: setTableData_def setDataToReadOnlyTable_fields)
  from s v have "windowInv ?c" by (simp add: windowInv_def take_is_prefix)
  from handleLoadMore_window [OF this] s v l
  show "dataToShow (handleLoadMore ?c) = D"
    by (simp add: PAGE_SIZE_def)
qed

theorem C9_window_is_prefix_witness:
  "length exampleRows20 = 20 \<and>
   windowInv (setTableData False (Some exampleRows20) (initialComponent [])) \<and>
   map rowId (dataToShow (setTableData False (Some exampleRows20) (initialComponent []))) =
     map (\<lambda>n. JStr (''R'' @ showNat n)) [1 ..< 16] \<and>
   dataToShow (handleLoadMore (setTableData False (Some exampleRows20) (initialComponent []))) =
     exampleRows20 \<and>
   windowInv (step exampleHost (setTableData False (Some exampleRows20) (initialComponent [])) LoadMore) \<and>
   (\<exists>c'. handleSearch exampleComponent = Inr c' \<and> dataToShow c' = take PAGE_SIZE (dataTableValue c'))"
proof -
  let ?c = "setTableData False (Some exampleRows20) (initialComponent [])"
  have l: "length exampleRows20 = 20" by code_simp
  have w: "windowInv ?c" by code_simp
  have m: "map rowId (dataToShow ?c) = map (\<lambda>n. JStr (''R'' @ showNat n)) [1 ..< 16]"
    by code_simp
  have "case handleSearch exampleComponent of Inl e \<Rightarrow> False | Inr c' \<Rightarrow> True"
    by code_simp
  then obtain c' where s: "handleSearch exampleComponent = Inr c'"
    by (cases "handleSearch exampleComponent") auto
  note t = C9_window_is_prefix [where h = exampleHost and fs = "[]" and ops = "[]" and c = ?c
      and op = LoadMore and c' = c' and D = exampleRows20]
  note u = C9_window_is_prefix [where h = exampleHost and fs = "[]" and ops = "[]"
      and c = exampleComponent and op = LoadMore and c' = c' and D = exampleRows20]
  note t0 = C9_window_is_prefix [where h = exampleHost and fs = "[]" and ops = "[]"
      and c = "initialComponent []" and op = LoadMore and c' = c' and D = exampleRows20]
  from t0 l have "dataToShow (handleLoadMore ?c) = exampleRows20" by blast
  moreover from t w have "windowInv (step exampleHost ?c LoadMore)" by blast
  moreover from u s have "dataToShow c' = take PAGE_SIZE (dataTableValue c')" by blast
  ultimately show ?thesis using l w m s by blast
qed

end
